theory Spec2Isabelle
  imports Main
begin

section \<open>The checkers move-decision engine of \<open>checkers.py\<close>\<close>

text \<open>
  Python strings are modelled as \<^typ>\<open>string\<close>, that is, with characters of code point
  below 256. Python integers are \<^typ>\<open>int\<close>. A Python \<open>dict\<close> iterates in insertion
  order and an assignment to a key already present keeps that key's position, so
  \<open>BoardState.pieces\<close> is an association list with the assignment written out.
  Exceptions are values of a sum type, \<open>Inl\<close> the exception.
\<close>

subsection \<open>Data model\<close>

type_synonym Square = "int \<times> int"

type_synonym Move = "Square \<times> Square"

datatype py_error = IndexError | ValueError | TimeoutError | AttributeError | TypeError

record BoardState =
  pieces :: "(string \<times> string) list"

text \<open>\<open>pieces[name] = filename\<close> on an insertion-ordered dictionary.\<close>

fun setitem :: "string \<Rightarrow> string \<Rightarrow> (string \<times> string) list \<Rightarrow> (string \<times> string) list" where
  "setitem k v [] = [(k, v)]"
| "setitem k v ((k', v') # ps) = (if k' = k then (k', v) # ps else (k', v') # setitem k v ps)"

subsection \<open>\<open>BoardState.from_page\<close>\<close>

text \<open>
  The page is read as the sequence of the \<open>name\<close> and \<open>src\<close> attributes of the board's
  images, each \<open>None\<close> when the attribute is absent.
  \<open>src.split("/")[-1] if src else ""\<close> is the text after the last slash.
\<close>

definition filename_of :: "string option \<Rightarrow> string" where
  "filename_of src =
     (case src of None \<Rightarrow> [] | Some s \<Rightarrow> rev (takeWhile (\<lambda>c. c \<noteq> CHR ''/'') (rev s)))"

fun from_page_loop :: "(string \<times> string) list \<Rightarrow> (string option \<times> string option) list
    \<Rightarrow> (string \<times> string) list" where
  "from_page_loop ps [] = ps"
| "from_page_loop ps ((name, src) # images) =
     (case name of
        None \<Rightarrow> from_page_loop ps images
      | Some n \<Rightarrow>
          if n = [] then from_page_loop ps images
          else from_page_loop (setitem n (filename_of src) ps) images)"

definition from_page :: "(string option \<times> string option) list \<Rightarrow> BoardState" where
  "from_page images = \<lparr>pieces = from_page_loop [] images\<rparr>"

subsection \<open>The derived views\<close>

text \<open>
  \<open>int(c)\<close> of a one-character string: the decimal digits are the only characters below
  code point 256 that it accepts, anything else raises \<open>ValueError\<close>.
\<close>

definition int_of_char :: "char \<Rightarrow> py_error + int" where
  "int_of_char c =
     (let n = (of_char c :: nat)
      in if 48 \<le> n \<and> n \<le> 57 then Inr (int n - 48) else Inl ValueError)"

text \<open>
  \<open>x, y = int(name[5]), int(name[6])\<close>, left to right: \<open>name[5]\<close> raises \<open>IndexError\<close> on
  a short name before \<open>int\<close> is tried, and \<open>name[6]\<close> is only read once \<open>int(name[5])\<close>
  has succeeded.
\<close>

definition coord :: "string \<Rightarrow> py_error + Square" where
  "coord name =
     (if length name \<le> 5 then Inl IndexError
      else
        (case int_of_char (name ! 5) of
           Inl e \<Rightarrow> Inl e
         | Inr x \<Rightarrow>
             (if length name \<le> 6 then Inl IndexError
              else
                (case int_of_char (name ! 6) of
                   Inl e \<Rightarrow> Inl e
                 | Inr y \<Rightarrow> Inr (x, y)))))"

text \<open>
  The three generators differ in the token only. Consumed to the end (as \<open>set(...)\<close>
  does), a generator gives the squares in dictionary order, or the first exception.
\<close>

fun squares_with :: "string \<Rightarrow> (string \<times> string) list \<Rightarrow> py_error + Square list" where
  "squares_with tok [] = Inr []"
| "squares_with tok ((name, src) # items) =
     (if src = tok then
        (case coord name of
           Inl e \<Rightarrow> Inl e
         | Inr sq \<Rightarrow>
             (case squares_with tok items of
                Inl e \<Rightarrow> Inl e
              | Inr sqs \<Rightarrow> Inr (sq # sqs)))
      else squares_with tok items)"

definition player_pieces :: "BoardState \<Rightarrow> py_error + Square list" where
  "player_pieces state = squares_with ''you1.gif'' (pieces state)"

definition opponent_pieces :: "BoardState \<Rightarrow> py_error + Square list" where
  "opponent_pieces state = squares_with ''me1.gif'' (pieces state)"

definition empty_playable_squares :: "BoardState \<Rightarrow> py_error + Square list" where
  "empty_playable_squares state = squares_with ''gray.gif'' (pieces state)"

subsection \<open>Move search\<close>

definition on_board :: "int \<Rightarrow> int \<Rightarrow> bool" where
  "on_board dest_x dest_y \<longleftrightarrow> 0 \<le> dest_x \<and> dest_x \<le> 7 \<and> 0 \<le> dest_y \<and> dest_y \<le> 7"

text \<open>The inner loop \<open>for dx in (-2, 2)\<close> of \<open>find_capture_move\<close> for one piece.\<close>

fun capture_dirs :: "Square set \<Rightarrow> Square set \<Rightarrow> Square \<Rightarrow> int list \<Rightarrow> Move option" where
  "capture_dirs opponents empties (x, y) [] = None"
| "capture_dirs opponents empties (x, y) (dx # dxs) =
     (let dest_x = x + dx; dest_y = y + 2
      in if \<not> on_board dest_x dest_y then capture_dirs opponents empties (x, y) dxs
         else
           let mid_x = x + dx div 2; mid_y = y + 1
           in if (mid_x, mid_y) \<in> opponents \<and> (dest_x, dest_y) \<in> empties
              then Some ((x, y), (dest_x, dest_y))
              else capture_dirs opponents empties (x, y) dxs)"

text \<open>
  The outer loop runs over the generator \<open>state.player_pieces()\<close>, which is lazy: the
  name of a player piece is parsed only when the loop reaches it.
\<close>

fun capture_loop :: "Square set \<Rightarrow> Square set \<Rightarrow> (string \<times> string) list
    \<Rightarrow> py_error + Move option" where
  "capture_loop opponents empties [] = Inr None"
| "capture_loop opponents empties ((name, src) # items) =
     (if src = ''you1.gif'' then
        (case coord name of
           Inl e \<Rightarrow> Inl e
         | Inr sq \<Rightarrow>
             (case capture_dirs opponents empties sq [- 2, 2] of
                Some m \<Rightarrow> Inr (Some m)
              | None \<Rightarrow> capture_loop opponents empties items))
      else capture_loop opponents empties items)"

definition find_capture_move :: "BoardState \<Rightarrow> py_error + Move option" where
  "find_capture_move state =
     (case opponent_pieces state of
        Inl e \<Rightarrow> Inl e
      | Inr opps \<Rightarrow>
          (case empty_playable_squares state of
             Inl e \<Rightarrow> Inl e
           | Inr emps \<Rightarrow> capture_loop (set opps) (set emps) (pieces state)))"

fun simple_dirs :: "Square set \<Rightarrow> Square \<Rightarrow> int list \<Rightarrow> Move option" where
  "simple_dirs empties (x, y) [] = None"
| "simple_dirs empties (x, y) (dx # dxs) =
     (let dest_x = x + dx; dest_y = y + 1
      in if on_board dest_x dest_y then
           (if (dest_x, dest_y) \<in> empties then Some ((x, y), (dest_x, dest_y))
            else simple_dirs empties (x, y) dxs)
         else simple_dirs empties (x, y) dxs)"

fun simple_loop :: "Square set \<Rightarrow> (string \<times> string) list \<Rightarrow> py_error + Move option" where
  "simple_loop empties [] = Inr None"
| "simple_loop empties ((name, src) # items) =
     (if src = ''you1.gif'' then
        (case coord name of
           Inl e \<Rightarrow> Inl e
         | Inr sq \<Rightarrow>
             (case simple_dirs empties sq [- 1, 1] of
                Some m \<Rightarrow> Inr (Some m)
              | None \<Rightarrow> simple_loop empties items))
      else simple_loop empties items)"

definition find_simple_move :: "BoardState \<Rightarrow> py_error + Move option" where
  "find_simple_move state =
     (case empty_playable_squares state of
        Inl e \<Rightarrow> Inl e
      | Inr emps \<Rightarrow> simple_loop (set emps) (pieces state))"

subsection \<open>The game loop\<close>

text \<open>
  The browser page is an external collaborator. It is a state of an arbitrary type
  \<open>'p\<close> with the operations the script uses: \<open>turn_reached\<close> is the page once
  \<open>#message\<close> starts with \<open>Make a move\<close> (\<open>None\<close> when that never happens within the
  collaborator's time limit), \<open>board_images\<close> the \<open>name\<close> and \<open>src\<close> attributes of
  \<open>#board img\<close>, \<open>click\<close> the page after a click on a selector (\<open>None\<close> when no such
  element becomes clickable), \<open>wait_for_timeout\<close> the page after a pause.
  What the script does to the outside is recorded as a trace of events.
\<close>

record 'p surface =
  turn_reached :: "'p \<Rightarrow> 'p option"
  board_images :: "'p \<Rightarrow> (string option \<times> string option) list"
  click :: "string \<Rightarrow> 'p \<Rightarrow> 'p option"
  wait_for_timeout :: "int \<Rightarrow> 'p \<Rightarrow> 'p"

datatype event = Click string | Print string

datatype outcome = Returned | Raised py_error

definition wait_for_turn :: "'p surface \<Rightarrow> 'p \<Rightarrow> py_error + 'p" where
  "wait_for_turn page p = (case turn_reached page p of None \<Rightarrow> Inl TimeoutError | Some p' \<Rightarrow> Inr p')"

text \<open>The decimal text of an integer, as an f-string prints it.\<close>

fun str_nat :: "nat \<Rightarrow> string" where
  "str_nat n =
     (if n < 10 then [''0123456789'' ! n]
      else str_nat (n div 10) @ [''0123456789'' ! (n mod 10)])"

declare str_nat.simps [simp del]

definition str_int :: "int \<Rightarrow> string" where
  "str_int i = (if i < 0 then CHR ''-'' # str_nat (nat (- i)) else str_nat (nat i))"

definition perform_move :: "'p surface \<Rightarrow> Square \<Rightarrow> Square \<Rightarrow> 'p \<Rightarrow> event list
    \<Rightarrow> outcome \<times> 'p \<times> event list" where
  "perform_move page from_sq to_sq p tr =
     (case from_sq of (fx, fy) \<Rightarrow>
       (case to_sq of (tx, ty) \<Rightarrow>
         (let sel_from = ''img[name=space'' @ str_int fx @ str_int fy @ '']'';
              sel_to = ''img[name=space'' @ str_int tx @ str_int ty @ '']''
          in (case click page sel_from p of
                None \<Rightarrow> (Raised TimeoutError, p, tr @ [Click sel_from])
              | Some p1 \<Rightarrow>
                  (case click page sel_to p1 of
                     None \<Rightarrow> (Raised TimeoutError, p1, tr @ [Click sel_from, Click sel_to])
                   | Some p2 \<Rightarrow> (Returned, p2, tr @ [Click sel_from, Click sel_to]))))))"

text \<open>
  Lines 112 to 114 of \<open>make_moves\<close>: \<open>move = find_capture_move(state)\<close>, then
  \<open>if not move: move = find_simple_move(state)\<close>. A returned move is a non-empty tuple,
  so \<open>not move\<close> holds exactly for \<open>None\<close>.
\<close>

definition choose_move :: "BoardState \<Rightarrow> py_error + Move option" where
  "choose_move state =
     (case find_capture_move state of
        Inl e \<Rightarrow> Inl e
      | Inr move \<Rightarrow> if move = None then find_simple_move state else Inr move)"

fun make_moves_loop :: "'p surface \<Rightarrow> nat \<Rightarrow> 'p \<Rightarrow> event list \<Rightarrow> outcome \<times> 'p \<times> event list" where
  "make_moves_loop page 0 p tr = (Returned, p, tr)"
| "make_moves_loop page (Suc n) p tr =
     (case wait_for_turn page p of
        Inl e \<Rightarrow> (Raised e, p, tr)
      | Inr p1 \<Rightarrow>
          (case choose_move (from_page (board_images page p1)) of
             Inl e \<Rightarrow> (Raised e, p1, tr)
           | Inr None \<Rightarrow> (Returned, p1, tr @ [Print ''No moves available , ending game.''])
           | Inr (Some (from_sq, to_sq)) \<Rightarrow>
               (case perform_move page from_sq to_sq p1 tr of
                  (out, p2, tr2) \<Rightarrow>
                    (case out of
                       Raised e \<Rightarrow> (Raised e, p2, tr2)
                     | Returned \<Rightarrow> make_moves_loop page n (wait_for_timeout page 500 p2) tr2))))"

text \<open>\<open>for _ in range(number_of_moves)\<close> runs no iteration for a negative number.\<close>

definition make_moves :: "'p surface \<Rightarrow> int \<Rightarrow> 'p \<Rightarrow> outcome \<times> 'p \<times> event list" where
  "make_moves page number_of_moves p = make_moves_loop page (nat number_of_moves) p []"

subsection \<open>The searches on the object store\<close>

text \<open>
  Python hands \<open>state\<close> to the searches by reference: the \<open>BoardState\<close> object holds a
  reference to its dictionary, and \<open>set(...)\<close> creates a new set object. To speak of what
  a call does to the objects it is given, the same two functions are written over a
  store of objects. An address is an index into the store and a new object is placed at
  its end. Integers, strings and tuples are immutable and stay values.
\<close>

type_synonym addr = nat

datatype obj = Board addr | Dict "(string \<times> string) list" | SetObj "Square set"

type_synonym store = "obj list"

definition obj_at :: "store \<Rightarrow> addr \<Rightarrow> obj option" where
  "obj_at h a = (if a < length h then Some (h ! a) else None)"

definition alloc :: "store \<Rightarrow> obj \<Rightarrow> addr \<times> store" where
  "alloc h ob = (length h, h @ [ob])"

text \<open>
  \<open>self.pieces.items()\<close>, as each generator reads it when it starts; an object without
  the attribute raises \<open>AttributeError\<close>.
\<close>

definition items_of :: "store \<Rightarrow> addr \<Rightarrow> py_error + (string \<times> string) list" where
  "items_of h state =
     (case obj_at h state of
        Some (Board d) \<Rightarrow>
          (case obj_at h d of
             Some (Dict ps) \<Rightarrow> Inr ps
           | _ \<Rightarrow> Inl AttributeError)
      | _ \<Rightarrow> Inl AttributeError)"

definition opponent_pieces_at :: "store \<Rightarrow> addr \<Rightarrow> py_error + Square list" where
  "opponent_pieces_at h state =
     (case items_of h state of Inl e \<Rightarrow> Inl e | Inr ps \<Rightarrow> squares_with ''me1.gif'' ps)"

definition empty_playable_squares_at :: "store \<Rightarrow> addr \<Rightarrow> py_error + Square list" where
  "empty_playable_squares_at h state =
     (case items_of h state of Inl e \<Rightarrow> Inl e | Inr ps \<Rightarrow> squares_with ''gray.gif'' ps)"

text \<open>
  The operand of \<open>in\<close>: the set object a local variable refers to (\<open>TypeError\<close> for an
  object that is no container).
\<close>

definition set_at :: "store \<Rightarrow> addr \<Rightarrow> py_error + Square set" where
  "set_at h a = (case obj_at h a of Some (SetObj S) \<Rightarrow> Inr S | _ \<Rightarrow> Inl TypeError)"

text \<open>
  \<open>find_capture_move\<close>, statement by statement: the opponents' generator is consumed and
  its set created, then the same for the empty squares, then the loop runs over the
  player generator, whose body only computes integers and tests membership in the two
  sets.
\<close>

definition find_capture_move_store :: "store \<Rightarrow> addr \<Rightarrow> (py_error + Move option) \<times> store" where
  "find_capture_move_store h state =
     (case opponent_pieces_at h state of
        Inl e \<Rightarrow> (Inl e, h)
      | Inr opps \<Rightarrow>
          (case alloc h (SetObj (set opps)) of (opponents, h1) \<Rightarrow>
            (case empty_playable_squares_at h1 state of
               Inl e \<Rightarrow> (Inl e, h1)
             | Inr emps \<Rightarrow>
                 (case alloc h1 (SetObj (set emps)) of (empties, h2) \<Rightarrow>
                   (case items_of h2 state of
                      Inl e \<Rightarrow> (Inl e, h2)
                    | Inr ps \<Rightarrow>
                        (case set_at h2 opponents of
                           Inl e \<Rightarrow> (Inl e, h2)
                         | Inr opp_set \<Rightarrow>
                             (case set_at h2 empties of
                                Inl e \<Rightarrow> (Inl e, h2)
                              | Inr emp_set \<Rightarrow> (capture_loop opp_set emp_set ps, h2))))))))"

definition find_simple_move_store :: "store \<Rightarrow> addr \<Rightarrow> (py_error + Move option) \<times> store" where
  "find_simple_move_store h state =
     (case empty_playable_squares_at h state of
        Inl e \<Rightarrow> (Inl e, h)
      | Inr emps \<Rightarrow>
          (case alloc h (SetObj (set emps)) of (empties, h1) \<Rightarrow>
            (case items_of h1 state of
               Inl e \<Rightarrow> (Inl e, h1)
             | Inr ps \<Rightarrow>
                 (case set_at h1 empties of
                    Inl e \<Rightarrow> (Inl e, h1)
                  | Inr emp_set \<Rightarrow> (simple_loop emp_set ps, h1)))))"

section \<open>Properties\<close>

subsection \<open>Parsing and the views\<close>

lemma int_of_char_range: "int_of_char c = Inr d \<Longrightarrow> 0 \<le> d \<and> d \<le> 9"
  by (auto simp: int_of_char_def Let_def split: if_splits)

lemma coord_range: "coord n = Inr (x, y) \<Longrightarrow> 0 \<le> x \<and> x \<le> 9 \<and> 0 \<le> y \<and> y \<le> 9"
  by (auto simp: coord_def split: if_splits sum.splits dest: int_of_char_range)

lemma squares_with_set:
  "squares_with tok ps = Inr sqs \<Longrightarrow> set sqs = {sq. \<exists>n. (n, tok) \<in> set ps \<and> coord n = Inr sq}"
proof (induction ps arbitrary: sqs)
  case Nil
  then show ?case by simp
next
  case (Cons p ps)
  obtain n c where p: "p = (n, c)" by (cases p)
  show ?case
  proof (cases "c = tok")
    case True
    with Cons.prems p obtain sq rest where
      sq: "coord n = Inr sq" and rest: "squares_with tok ps = Inr rest" and sqs: "sqs = sq # rest"
      by (auto split: sum.splits)
    from Cons.IH [OF rest] sq sqs p True show ?thesis by auto
  next
    case False
    with Cons.prems p have "squares_with tok ps = Inr sqs" by simp
    from Cons.IH [OF this] p False show ?thesis by auto
  qed
qed

lemma views_disjoint_aux:
  assumes d: "distinct (map fst ps)"
    and inj: "\<forall>n1\<in>fst ` set ps. \<forall>n2\<in>fst ` set ps. \<forall>sq.
        coord n1 = Inr sq \<and> coord n2 = Inr sq \<longrightarrow> n1 = n2"
    and a: "squares_with ta ps = Inr A" and b: "squares_with tb ps = Inr B"
    and ne: "ta \<noteq> tb"
  shows "set A \<inter> set B = {}"
proof (rule ccontr)
  assume "set A \<inter> set B \<noteq> {}"
  then obtain sq where "sq \<in> set A" "sq \<in> set B" by blast
  with squares_with_set [OF a] squares_with_set [OF b] obtain n1 n2 where
    n1: "(n1, ta) \<in> set ps" "coord n1 = Inr sq" and n2: "(n2, tb) \<in> set ps" "coord n2 = Inr sq"
    by blast
  from n1(1) n2(1) have "n1 \<in> fst ` set ps" "n2 \<in> fst ` set ps" by force+
  with inj n1(2) n2(2) have "n1 = n2" by blast
  with d n1(1) n2(1) have "ta = tb" by (auto dest: eq_key_imp_eq_value)
  with ne show False by simp
qed

lemma squares_with_range:
  "squares_with tok ps = Inr A \<Longrightarrow> (x, y) \<in> set A \<Longrightarrow> 0 \<le> x \<and> x \<le> 9 \<and> 0 \<le> y \<and> y \<le> 9"
  by (auto dest!: squares_with_set dest: coord_range)

subsection \<open>The dictionary and \<open>from_page\<close>\<close>

lemma from_page_loop_append:
  "from_page_loop ps (xs @ ys) = from_page_loop (from_page_loop ps xs) ys"
  by (induction ps xs rule: from_page_loop.induct) (auto split: option.splits)

lemma from_page_loop_filter:
  "from_page_loop ps [(name, src) \<leftarrow> images. name \<noteq> None \<and> name \<noteq> Some []]
     = from_page_loop ps images"
  by (induction ps images rule: from_page_loop.induct) (auto split: option.splits)

lemma set_setitem: "set (setitem k v ps) \<subseteq> insert (k, v) (set ps)"
  by (induction k v ps rule: setitem.induct) auto

lemma keys_setitem: "fst ` set (setitem k v ps) = insert k (fst ` set ps)"
  by (induction k v ps rule: setitem.induct) auto

lemma distinct_setitem: "distinct (map fst ps) \<Longrightarrow> distinct (map fst (setitem k v ps))"
  by (induction k v ps rule: setitem.induct) (auto simp: keys_setitem)

lemma map_of_setitem: "map_of (setitem k v ps) = (map_of ps)(k \<mapsto> v)"
  by (induction k v ps rule: setitem.induct) (auto simp: fun_eq_iff)

lemma setitem_twice: "setitem k v (setitem k v' ps) = setitem k v ps"
  by (induction k v' ps rule: setitem.induct) auto

lemma setitem_commute:
  "k \<in> fst ` set ps \<Longrightarrow> k \<noteq> k' \<Longrightarrow>
     setitem k v (setitem k' v' ps) = setitem k' v' (setitem k v ps)"
  by (induction k' v' ps rule: setitem.induct) auto

lemma distinct_from_page_loop:
  "distinct (map fst ps) \<Longrightarrow> distinct (map fst (from_page_loop ps images))"
  by (induction ps images rule: from_page_loop.induct)
     (auto split: option.splits simp: distinct_setitem)

lemma set_from_page_loop:
  "(n, c) \<in> set (from_page_loop ps images) \<Longrightarrow>
     (n, c) \<in> set ps \<or> (\<exists>src. (Some n, src) \<in> set images \<and> n \<noteq> [] \<and> c = filename_of src)"
proof (induction ps images rule: from_page_loop.induct)
  case (1 ps)
  then show ?case by simp
next
  case (2 ps name src images)
  show ?case
  proof (cases "name = None \<or> name = Some []")
    case True
    with 2 show ?thesis by (auto split: option.splits)
  next
    case False
    then obtain k where k: "name = Some k" "k \<noteq> []" by auto
    with 2 have "(n, c) \<in> set (setitem k (filename_of src) ps)
       \<or> (\<exists>src. (Some n, src) \<in> set images \<and> n \<noteq> [] \<and> c = filename_of src)"
      by simp
    with set_setitem [of k "filename_of src" ps] k show ?thesis by auto
  qed
qed

lemma map_of_from_page_loop_other:
  "Some n \<notin> fst ` set images \<Longrightarrow> map_of (from_page_loop ps images) n = map_of ps n"
  by (induction ps images rule: from_page_loop.induct)
     (auto split: option.splits simp: map_of_setitem)

lemma from_page_loop_overwritten:
  "k \<in> fst ` set ps \<Longrightarrow>
     setitem k v (from_page_loop (setitem k u ps) images) = setitem k v (from_page_loop ps images)"
proof (induction ps images rule: from_page_loop.induct)
  case (1 ps)
  then show ?case by (simp add: setitem_twice)
next
  case (2 ps name src images)
  show ?case
  proof (cases "name = None \<or> name = Some []")
    case True
    with 2 show ?thesis by (auto split: option.splits)
  next
    case False
    then obtain k' where k': "name = Some k'" "k' \<noteq> []" by auto
    show ?thesis
    proof (cases "k' = k")
      case True
      with k' show ?thesis by (simp add: setitem_twice)
    next
      case False
      from "2.prems" have "k \<in> fst ` set (setitem k' (filename_of src) ps)"
        by (simp add: keys_setitem)
      with "2.IH"(3) k' have
        "setitem k v (from_page_loop (setitem k u (setitem k' (filename_of src) ps)) images)
           = setitem k v (from_page_loop (setitem k' (filename_of src) ps) images)"
        by simp
      moreover have "setitem k' (filename_of src) (setitem k u ps)
           = setitem k u (setitem k' (filename_of src) ps)"
        using setitem_commute [OF "2.prems", of k' u "filename_of src"] False by simp
      ultimately show ?thesis using k' by simp
    qed
  qed
qed

lemma squares_with_filter:
  "tok \<in> {''you1.gif'', ''me1.gif'', ''gray.gif''} \<Longrightarrow>
     squares_with tok [(n, c) \<leftarrow> ps. c \<in> {''you1.gif'', ''me1.gif'', ''gray.gif''}]
       = squares_with tok ps"
  by (induction tok ps rule: squares_with.induct) (auto split: sum.splits)

subsection \<open>The search loops\<close>

lemma capture_dirs_None_iff:
  "capture_dirs opps emps (x, y) dxs = None \<longleftrightarrow>
     (\<forall>dx\<in>set dxs. \<not> (on_board (x + dx) (y + 2) \<and> (x + dx div 2, y + 1) \<in> opps
        \<and> (x + dx, y + 2) \<in> emps))"
  by (induction dxs) (auto simp: Let_def)

lemma capture_dirs_Some:
  "capture_dirs opps emps (x, y) dxs = Some m \<Longrightarrow>
     \<exists>dx\<in>set dxs. m = ((x, y), (x + dx, y + 2)) \<and> on_board (x + dx) (y + 2)
        \<and> (x + dx div 2, y + 1) \<in> opps \<and> (x + dx, y + 2) \<in> emps"
  by (induction dxs) (auto simp: Let_def split: if_splits)

lemma simple_dirs_None_iff:
  "simple_dirs emps (x, y) dxs = None \<longleftrightarrow>
     (\<forall>dx\<in>set dxs. \<not> (on_board (x + dx) (y + 1) \<and> (x + dx, y + 1) \<in> emps))"
  by (induction dxs) (auto simp: Let_def)

lemma simple_dirs_Some:
  "simple_dirs emps (x, y) dxs = Some m \<Longrightarrow>
     \<exists>dx\<in>set dxs. m = ((x, y), (x + dx, y + 1)) \<and> on_board (x + dx) (y + 1)
        \<and> (x + dx, y + 1) \<in> emps"
  by (induction dxs) (auto simp: Let_def split: if_splits)

lemma capture_loop_Some:
  "capture_loop opps emps ps = Inr (Some m) \<Longrightarrow>
     \<exists>n sq. (n, ''you1.gif'') \<in> set ps \<and> coord n = Inr sq
        \<and> capture_dirs opps emps sq [- 2, 2] = Some m"
  by (induction opps emps ps rule: capture_loop.induct)
     (auto split: if_splits sum.splits option.splits)

lemma simple_loop_Some:
  "simple_loop emps ps = Inr (Some m) \<Longrightarrow>
     \<exists>n sq. (n, ''you1.gif'') \<in> set ps \<and> coord n = Inr sq
        \<and> simple_dirs emps sq [- 1, 1] = Some m"
  by (induction emps ps rule: simple_loop.induct)
     (auto split: if_splits sum.splits option.splits)

lemma capture_loop_total:
  "squares_with ''you1.gif'' ps = Inr P \<Longrightarrow>
     \<exists>r. capture_loop opps emps ps = Inr r
        \<and> (r = None \<longleftrightarrow> (\<forall>sq\<in>set P. capture_dirs opps emps sq [- 2, 2] = None))"
  by (induction opps emps ps arbitrary: P rule: capture_loop.induct)
     (auto split: if_splits sum.splits option.splits)

lemma simple_loop_total:
  "squares_with ''you1.gif'' ps = Inr P \<Longrightarrow>
     \<exists>r. simple_loop emps ps = Inr r
        \<and> (r = None \<longleftrightarrow> (\<forall>sq\<in>set P. simple_dirs emps sq [- 1, 1] = None))"
  by (induction emps ps arbitrary: P rule: simple_loop.induct)
     (auto split: if_splits sum.splits option.splits)

lemma capture_dirs_None_sq:
  "capture_dirs opps emps sq dxs = None \<longleftrightarrow>
     (\<forall>dx\<in>set dxs. \<not> (on_board (fst sq + dx) (snd sq + 2)
        \<and> (fst sq + dx div 2, snd sq + 1) \<in> opps \<and> (fst sq + dx, snd sq + 2) \<in> emps))"
  by (cases sq) (simp add: capture_dirs_None_iff)

lemma simple_dirs_None_sq:
  "simple_dirs emps sq dxs = None \<longleftrightarrow>
     (\<forall>dx\<in>set dxs. \<not> (on_board (fst sq + dx) (snd sq + 1) \<and> (fst sq + dx, snd sq + 1) \<in> emps))"
  by (cases sq) (simp add: simple_dirs_None_iff)


lemma find_capture_move_Some:
  assumes "find_capture_move s = Inr (Some m)"
  shows "\<exists>Op E n x y dx. opponent_pieces s = Inr Op \<and> empty_playable_squares s = Inr E
     \<and> (n, ''you1.gif'') \<in> set (pieces s) \<and> coord n = Inr (x, y) \<and> dx \<in> {- 2, 2}
     \<and> m = ((x, y), (x + dx, y + 2)) \<and> on_board (x + dx) (y + 2)
     \<and> (x + dx div 2, y + 1) \<in> set Op \<and> (x + dx, y + 2) \<in> set E"
proof -
  from assms obtain Op E where
    v: "opponent_pieces s = Inr Op" "empty_playable_squares s = Inr E"
    and l: "capture_loop (set Op) (set E) (pieces s) = Inr (Some m)"
    by (auto simp: find_capture_move_def split: sum.splits)
  from capture_loop_Some [OF l] obtain n sq where
    n: "(n, ''you1.gif'') \<in> set (pieces s)" "coord n = Inr sq"
    and d: "capture_dirs (set Op) (set E) sq [- 2, 2] = Some m"
    by blast
  obtain x y where sq: "sq = (x, y)" by (cases sq)
  from capture_dirs_Some [OF d [unfolded sq]] obtain dx where
    "dx \<in> set [- 2, 2]" "m = ((x, y), (x + dx, y + 2))" "on_board (x + dx) (y + 2)"
    "(x + dx div 2, y + 1) \<in> set Op" "(x + dx, y + 2) \<in> set E"
    by blast
  with v n sq show ?thesis by auto
qed

lemma find_simple_move_Some:
  assumes "find_simple_move s = Inr (Some m)"
  shows "\<exists>E n x y dx. empty_playable_squares s = Inr E
     \<and> (n, ''you1.gif'') \<in> set (pieces s) \<and> coord n = Inr (x, y) \<and> dx \<in> {- 1, 1}
     \<and> m = ((x, y), (x + dx, y + 1)) \<and> on_board (x + dx) (y + 1)
     \<and> (x + dx, y + 1) \<in> set E"
proof -
  from assms obtain E where
    v: "empty_playable_squares s = Inr E"
    and l: "simple_loop (set E) (pieces s) = Inr (Some m)"
    by (auto simp: find_simple_move_def split: sum.splits)
  from simple_loop_Some [OF l] obtain n sq where
    n: "(n, ''you1.gif'') \<in> set (pieces s)" "coord n = Inr sq"
    and d: "simple_dirs (set E) sq [- 1, 1] = Some m"
    by blast
  obtain x y where sq: "sq = (x, y)" by (cases sq)
  from simple_dirs_Some [OF d [unfolded sq]] obtain dx where
    "dx \<in> set [- 1, 1]" "m = ((x, y), (x + dx, y + 1))" "on_board (x + dx) (y + 1)"
    "(x + dx, y + 1) \<in> set E"
    by blast
  with v n sq show ?thesis by auto
qed

lemma find_capture_move_total:
  assumes "player_pieces s = Inr P" and "opponent_pieces s = Inr Op"
    and "empty_playable_squares s = Inr E"
  shows "\<exists>r. find_capture_move s = Inr r
     \<and> (r = None \<longleftrightarrow> (\<forall>sq\<in>set P. capture_dirs (set Op) (set E) sq [- 2, 2] = None))"
  using assms capture_loop_total [of "pieces s" P "set Op" "set E"]
  by (simp add: find_capture_move_def player_pieces_def)

lemma no_capture_iff:
  "(\<forall>sq\<in>set P. capture_dirs (set Op) (set E) sq [- 2, 2] = None) \<longleftrightarrow>
     \<not> (\<exists>(x, y)\<in>set P. \<exists>dx\<in>{- 2, 2}.
          0 \<le> x + dx \<and> x + dx \<le> 7 \<and> 0 \<le> y + 2 \<and> y + 2 \<le> 7
          \<and> (x + dx, y + 2) \<in> set E \<and> (x + dx div 2, y + 1) \<in> set Op)"
  by (auto simp: capture_dirs_None_sq on_board_def)

lemma no_simple_iff:
  "(\<forall>sq\<in>set P. simple_dirs (set E) sq [- 1, 1] = None) \<longleftrightarrow>
     \<not> (\<exists>(x, y)\<in>set P. \<exists>dx\<in>{- 1, 1}.
          0 \<le> x + dx \<and> x + dx \<le> 7 \<and> 0 \<le> y + 1 \<and> y + 1 \<le> 7
          \<and> (x + dx, y + 1) \<in> set E)"
  by (auto simp: simple_dirs_None_sq on_board_def)

lemma choose_move_capture:
  "find_capture_move s = Inr (Some m) \<Longrightarrow> choose_move s = Inr (Some m)"
  by (simp add: choose_move_def)

lemmas view_eval = player_pieces_def opponent_pieces_def empty_playable_squares_def coord_def
  int_of_char_def

subsection \<open>The object store\<close>

lemma obj_at_snoc_old: "a < length h \<Longrightarrow> obj_at (h @ ext) a = obj_at h a"
  by (simp add: obj_at_def nth_append)

lemma items_of_snoc_set: "items_of (h @ [SetObj S]) state = items_of h state"
  by (auto simp: items_of_def obj_at_def nth_append split: obj.splits option.splits)

lemma items_of_append_sets:
  "\<forall>ob\<in>set ext. \<exists>S. ob = SetObj S \<Longrightarrow> items_of (h @ ext) state = items_of h state"
proof (induction ext arbitrary: h)
  case Nil
  then show ?case by simp
next
  case (Cons ob ext)
  then obtain S where S: "ob = SetObj S" by auto
  from Cons.prems have "\<forall>ob\<in>set ext. \<exists>S. ob = SetObj S" by simp
  from Cons.IH [OF this, of "h @ [ob]"] S show ?case by (simp add: items_of_snoc_set)
qed

lemma set_at_new: "set_at (h @ SetObj S # ext) (length h) = Inr S"
  by (simp add: set_at_def obj_at_def nth_append)

lemma items_of_two_sets: "items_of (h @ [SetObj S, SetObj T]) state = items_of h state"
  by (rule items_of_append_sets) simp

lemma set_at_second: "set_at (h @ [SetObj S, SetObj T]) (Suc (length h)) = Inr T"
  using set_at_new [of "h @ [SetObj S]" T "[]"] by simp

lemma find_capture_move_store_result:
  "fst (find_capture_move_store h state) =
     (case items_of h state of Inl e \<Rightarrow> Inl e | Inr ps \<Rightarrow> find_capture_move \<lparr>pieces = ps\<rparr>)"
  by (simp add: find_capture_move_store_def find_capture_move_def opponent_pieces_at_def
      empty_playable_squares_at_def opponent_pieces_def empty_playable_squares_def alloc_def
      items_of_snoc_set items_of_two_sets set_at_second set_at_new split: sum.splits)

lemma find_simple_move_store_result:
  "fst (find_simple_move_store h state) =
     (case items_of h state of Inl e \<Rightarrow> Inl e | Inr ps \<Rightarrow> find_simple_move \<lparr>pieces = ps\<rparr>)"
  by (simp add: find_simple_move_store_def find_simple_move_def
      empty_playable_squares_at_def empty_playable_squares_def alloc_def
      items_of_snoc_set set_at_new split: sum.splits)

lemma find_capture_move_store_frame:
  "\<exists>ext. snd (find_capture_move_store h state) = h @ ext \<and> (\<forall>ob\<in>set ext. \<exists>S. ob = SetObj S)"
proof -
  have "snd (find_capture_move_store h state) = h @ []
      \<or> (\<exists>S. snd (find_capture_move_store h state) = h @ [SetObj S])
      \<or> (\<exists>S T. snd (find_capture_move_store h state) = h @ [SetObj S, SetObj T])"
    by (auto simp: find_capture_move_store_def alloc_def split: sum.splits)
  then show ?thesis by (elim disjE exE) (rule exI, erule conjI, simp)+
qed

lemma find_simple_move_store_frame:
  "\<exists>ext. snd (find_simple_move_store h state) = h @ ext \<and> (\<forall>ob\<in>set ext. \<exists>S. ob = SetObj S)"
proof -
  have "snd (find_simple_move_store h state) = h @ []
      \<or> (\<exists>S. snd (find_simple_move_store h state) = h @ [SetObj S])"
    by (auto simp: find_simple_move_store_def alloc_def split: sum.splits)
  then show ?thesis by (elim disjE exE) (rule exI, erule conjI, simp)+
qed

lemma store_extended_by_sets:
  assumes "h' = h @ ext" and "\<forall>ob\<in>set ext. \<exists>S. ob = SetObj S"
  shows "(\<forall>a<length h. obj_at h' a = obj_at h a) \<and> items_of h' state = items_of h state"
  using assms by (simp add: obj_at_snoc_old items_of_append_sets)

subsection \<open>Capture search\<close>

text \<open>
  Claim C1. On a snapshot whose three views evaluate (every identifier that carries one of
  the three recognised contents has digits at positions 5 and 6), \<open>find_capture_move\<close>
  returns \<open>None\<close> if and only if no player piece \<open>(x, y)\<close> has a valid jump: a destination
  \<open>(x + dx, y + 2)\<close> with \<open>dx\<close> in \<open>{-2, 2}\<close> that lies within \<open>[0,7] \<times> [0,7]\<close> and is in
  \<open>empty_playable\<close>, with the midpoint \<open>(x + dx div 2, y + 1)\<close> in \<open>opponent_pieces\<close>.
\<close>

theorem find_capture_move_None_iff:
  assumes "player_pieces s = Inr P" and "opponent_pieces s = Inr Op"
    and "empty_playable_squares s = Inr E"
  shows "find_capture_move s = Inr None \<longleftrightarrow>
     \<not> (\<exists>(x, y)\<in>set P. \<exists>dx\<in>{- 2, 2}.
          0 \<le> x + dx \<and> x + dx \<le> 7 \<and> 0 \<le> y + 2 \<and> y + 2 \<le> 7
          \<and> (x + dx, y + 2) \<in> set E \<and> (x + dx div 2, y + 1) \<in> set Op)"
proof -
  from assms(1) obtain r where
    r: "capture_loop (set Op) (set E) (pieces s) = Inr r"
    and rn: "r = None \<longleftrightarrow> (\<forall>sq\<in>set P. capture_dirs (set Op) (set E) sq [- 2, 2] = None)"
    unfolding player_pieces_def using capture_loop_total by blast
  have "find_capture_move s = Inr r"
    using assms(2,3) r by (simp add: find_capture_move_def)
  moreover have "(\<forall>sq\<in>set P. capture_dirs (set Op) (set E) sq [- 2, 2] = None) \<longleftrightarrow>
     \<not> (\<exists>(x, y)\<in>set P. \<exists>dx\<in>{- 2, 2}.
          0 \<le> x + dx \<and> x + dx \<le> 7 \<and> 0 \<le> y + 2 \<and> y + 2 \<le> 7
          \<and> (x + dx, y + 2) \<in> set E \<and> (x + dx div 2, y + 1) \<in> set Op)"
    by (auto simp: capture_dirs_None_sq on_board_def)
  ultimately show ?thesis using rn by simp
qed

theorem find_capture_move_None_iff_witness:
  "player_pieces \<lparr>pieces = [(''space22'', ''you1.gif''), (''space33'', ''me1.gif''),
       (''space44'', ''gray.gif'')]\<rparr> = Inr [(2, 2)]
   \<and> opponent_pieces \<lparr>pieces = [(''space22'', ''you1.gif''), (''space33'', ''me1.gif''),
       (''space44'', ''gray.gif'')]\<rparr> = Inr [(3, 3)]
   \<and> empty_playable_squares \<lparr>pieces = [(''space22'', ''you1.gif''), (''space33'', ''me1.gif''),
       (''space44'', ''gray.gif'')]\<rparr> = Inr [(4, 4)]
   \<and> find_capture_move \<lparr>pieces = [(''space22'', ''you1.gif''), (''space33'', ''me1.gif''),
       (''space44'', ''gray.gif'')]\<rparr> \<noteq> Inr None"
  using find_capture_move_None_iff [of "\<lparr>pieces = [(''space22'', ''you1.gif''),
    (''space33'', ''me1.gif''), (''space44'', ''gray.gif'')]\<rparr>" "[(2, 2)]" "[(3, 3)]" "[(4, 4)]"]
  by (simp add: player_pieces_def opponent_pieces_def empty_playable_squares_def coord_def
      int_of_char_def)

text \<open>
  Claim C9. A move \<open>((x, y), (x', y'))\<close> returned by \<open>find_capture_move\<close> starts at a
  player piece (an entry of the snapshot with content \<open>you1.gif\<close> whose identifier gives
  \<open>(x, y)\<close>, hence a member of \<open>player_pieces\<close> whenever that view evaluates), ends at
  \<open>(x + dx, y + 2)\<close> for some \<open>dx\<close> in \<open>{-2, 2}\<close>, which is in \<open>empty_playable\<close> and
  within \<open>[0,7] \<times> [0,7]\<close>, and jumps the midpoint \<open>(x + dx div 2, y + 1)\<close>, which is in
  \<open>opponent_pieces\<close>. A move returned by \<open>find_simple_move\<close> starts at a player piece and
  ends at \<open>(x + dx, y + 1)\<close> for some \<open>dx\<close> in \<open>{-1, 1}\<close>, which is in \<open>empty_playable\<close>
  and within \<open>[0,7] \<times> [0,7]\<close>.
\<close>

theorem returned_move_valid:
  "(find_capture_move s = Inr (Some ((x, y), (x', y'))) \<longrightarrow>
      (\<exists>n. (n, ''you1.gif'') \<in> set (pieces s) \<and> coord n = Inr (x, y))
      \<and> (\<forall>P. player_pieces s = Inr P \<longrightarrow> (x, y) \<in> set P)
      \<and> (\<exists>Op E dx. opponent_pieces s = Inr Op \<and> empty_playable_squares s = Inr E
            \<and> dx \<in> {- 2, 2} \<and> (x', y') = (x + dx, y + 2) \<and> (x', y') \<in> set E
            \<and> 0 \<le> x' \<and> x' \<le> 7 \<and> 0 \<le> y' \<and> y' \<le> 7 \<and> (x + dx div 2, y + 1) \<in> set Op))
   \<and> (find_simple_move s = Inr (Some ((x, y), (x', y'))) \<longrightarrow>
      (\<exists>n. (n, ''you1.gif'') \<in> set (pieces s) \<and> coord n = Inr (x, y))
      \<and> (\<forall>P. player_pieces s = Inr P \<longrightarrow> (x, y) \<in> set P)
      \<and> (\<exists>E dx. empty_playable_squares s = Inr E
            \<and> dx \<in> {- 1, 1} \<and> (x', y') = (x + dx, y + 1) \<and> (x', y') \<in> set E
            \<and> 0 \<le> x' \<and> x' \<le> 7 \<and> 0 \<le> y' \<and> y' \<le> 7))"
proof (intro conjI impI)
  assume a: "find_capture_move s = Inr (Some ((x, y), (x', y')))"
  from find_capture_move_Some [OF a] obtain Op E n dx where
    v: "opponent_pieces s = Inr Op" "empty_playable_squares s = Inr E"
    and n: "(n, ''you1.gif'') \<in> set (pieces s)" "coord n = Inr (x, y)"
    and d: "dx \<in> {- 2, 2}" "(x', y') = (x + dx, y + 2)" "on_board (x + dx) (y + 2)"
      "(x + dx div 2, y + 1) \<in> set Op" "(x + dx, y + 2) \<in> set E"
    by auto
  from n show "\<exists>n. (n, ''you1.gif'') \<in> set (pieces s) \<and> coord n = Inr (x, y)" by blast
  from n show "\<forall>P. player_pieces s = Inr P \<longrightarrow> (x, y) \<in> set P"
    by (auto simp: player_pieces_def dest!: squares_with_set)
  from v d show "\<exists>Op E dx. opponent_pieces s = Inr Op \<and> empty_playable_squares s = Inr E
            \<and> dx \<in> {- 2, 2} \<and> (x', y') = (x + dx, y + 2) \<and> (x', y') \<in> set E
            \<and> 0 \<le> x' \<and> x' \<le> 7 \<and> 0 \<le> y' \<and> y' \<le> 7 \<and> (x + dx div 2, y + 1) \<in> set Op"
    unfolding on_board_def by (intro exI [of _ Op] exI [of _ E] exI [of _ dx]) simp
next
  assume a: "find_simple_move s = Inr (Some ((x, y), (x', y')))"
  from find_simple_move_Some [OF a] obtain E n dx where
    v: "empty_playable_squares s = Inr E"
    and n: "(n, ''you1.gif'') \<in> set (pieces s)" "coord n = Inr (x, y)"
    and d: "dx \<in> {- 1, 1}" "(x', y') = (x + dx, y + 1)" "on_board (x + dx) (y + 1)"
      "(x + dx, y + 1) \<in> set E"
    by auto
  from n show "\<exists>n. (n, ''you1.gif'') \<in> set (pieces s) \<and> coord n = Inr (x, y)" by blast
  from n show "\<forall>P. player_pieces s = Inr P \<longrightarrow> (x, y) \<in> set P"
    by (auto simp: player_pieces_def dest!: squares_with_set)
  from v d show "\<exists>E dx. empty_playable_squares s = Inr E
            \<and> dx \<in> {- 1, 1} \<and> (x', y') = (x + dx, y + 1) \<and> (x', y') \<in> set E
            \<and> 0 \<le> x' \<and> x' \<le> 7 \<and> 0 \<le> y' \<and> y' \<le> 7"
    unfolding on_board_def by (intro exI [of _ E] exI [of _ dx]) simp
qed

theorem returned_move_valid_witness:
  "find_capture_move \<lparr>pieces = [(''space22'', ''you1.gif''), (''space33'', ''me1.gif''),
       (''space44'', ''gray.gif'')]\<rparr> = Inr (Some ((2, 2), (4, 4)))
   \<and> (\<exists>n. (n, ''you1.gif'') \<in> set (pieces \<lparr>pieces = [(''space22'', ''you1.gif''),
       (''space33'', ''me1.gif''), (''space44'', ''gray.gif'')]\<rparr>) \<and> coord n = Inr (2, 2))
   \<and> find_simple_move \<lparr>pieces = [(''space22'', ''you1.gif''), (''space13'', ''gray.gif'')]\<rparr>
       = Inr (Some ((2, 2), (1, 3)))
   \<and> (\<exists>E dx. empty_playable_squares \<lparr>pieces = [(''space22'', ''you1.gif''),
         (''space13'', ''gray.gif'')]\<rparr> = Inr E \<and> dx \<in> {- 1, 1}
         \<and> ((1, 3) :: int \<times> int) = (2 + dx, 2 + 1) \<and> (1, 3) \<in> set E)"
proof -
  have c: "find_capture_move \<lparr>pieces = [(''space22'', ''you1.gif''), (''space33'', ''me1.gif''),
       (''space44'', ''gray.gif'')]\<rparr> = Inr (Some ((2, 2), (4, 4)))"
    by (simp add: find_capture_move_def view_eval on_board_def)
  have m: "find_simple_move \<lparr>pieces = [(''space22'', ''you1.gif''), (''space13'', ''gray.gif'')]\<rparr>
       = Inr (Some ((2, 2), (1, 3)))"
    by (simp add: find_simple_move_def view_eval on_board_def)
  from returned_move_valid [of "\<lparr>pieces = [(''space22'', ''you1.gif''), (''space33'', ''me1.gif''),
       (''space44'', ''gray.gif'')]\<rparr>" 2 2 4 4] c
  have "\<exists>n. (n, ''you1.gif'') \<in> set (pieces \<lparr>pieces = [(''space22'', ''you1.gif''),
       (''space33'', ''me1.gif''), (''space44'', ''gray.gif'')]\<rparr>) \<and> coord n = Inr (2, 2)"
    by blast
  moreover from returned_move_valid [of "\<lparr>pieces = [(''space22'', ''you1.gif''),
       (''space13'', ''gray.gif'')]\<rparr>" 2 2 1 3] m
  have "\<exists>E dx. empty_playable_squares \<lparr>pieces = [(''space22'', ''you1.gif''),
         (''space13'', ''gray.gif'')]\<rparr> = Inr E \<and> dx \<in> {- 1, 1}
         \<and> ((1, 3) :: int \<times> int) = (2 + dx, 2 + 1) \<and> (1, 3) \<in> set E"
    by blast
  ultimately show ?thesis using c m by blast
qed

subsection \<open>Off-board destinations\<close>

text \<open>
  Claim C6. Whatever the snapshot holds, the destination of a move returned by
  \<open>find_capture_move\<close> or \<open>find_simple_move\<close> lies within \<open>[0,7] \<times> [0,7]\<close>; and a
  direction whose candidate destination is off the board is passed over by the inner
  loops whatever the sets of opponents and of empty squares contain, also when the
  off-board square itself is among the empty ones.
\<close>

theorem off_board_rejected:
  "(find_capture_move s = Inr (Some (from_sq, (tx, ty))) \<longrightarrow>
      0 \<le> tx \<and> tx \<le> 7 \<and> 0 \<le> ty \<and> ty \<le> 7)
   \<and> (find_simple_move s = Inr (Some (from_sq, (tx, ty))) \<longrightarrow>
      0 \<le> tx \<and> tx \<le> 7 \<and> 0 \<le> ty \<and> ty \<le> 7)
   \<and> (\<not> (0 \<le> x + dx \<and> x + dx \<le> 7 \<and> 0 \<le> y + 2 \<and> y + 2 \<le> 7) \<longrightarrow>
      capture_dirs opps emps (x, y) (dx # dxs) = capture_dirs opps emps (x, y) dxs)
   \<and> (\<not> (0 \<le> x + dx \<and> x + dx \<le> 7 \<and> 0 \<le> y + 1 \<and> y + 1 \<le> 7) \<longrightarrow>
      simple_dirs emps (x, y) (dx # dxs) = simple_dirs emps (x, y) dxs)"
proof -
  have c: "find_capture_move s = Inr (Some (from_sq, (tx, ty))) \<longrightarrow>
      0 \<le> tx \<and> tx \<le> 7 \<and> 0 \<le> ty \<and> ty \<le> 7"
    by (auto simp: on_board_def dest!: find_capture_move_Some)
  have m: "find_simple_move s = Inr (Some (from_sq, (tx, ty))) \<longrightarrow>
      0 \<le> tx \<and> tx \<le> 7 \<and> 0 \<le> ty \<and> ty \<le> 7"
    by (auto simp: on_board_def dest!: find_simple_move_Some)
  have cd: "\<not> (0 \<le> x + dx \<and> x + dx \<le> 7 \<and> 0 \<le> y + 2 \<and> y + 2 \<le> 7) \<longrightarrow>
      capture_dirs opps emps (x, y) (dx # dxs) = capture_dirs opps emps (x, y) dxs"
    by (simp add: on_board_def Let_def)
  have sd: "\<not> (0 \<le> x + dx \<and> x + dx \<le> 7 \<and> 0 \<le> y + 1 \<and> y + 1 \<le> 7) \<longrightarrow>
      simple_dirs emps (x, y) (dx # dxs) = simple_dirs emps (x, y) dxs"
    by (simp add: on_board_def Let_def)
  show ?thesis
    by (rule conjI [OF c conjI [OF m conjI [OF cd sd]]])
qed

theorem off_board_rejected_witness:
  "find_capture_move \<lparr>pieces = [(''space22'', ''you1.gif''), (''space33'', ''me1.gif''),
       (''space44'', ''gray.gif'')]\<rparr> = Inr (Some ((2, 2), (4, 4)))
   \<and> find_simple_move \<lparr>pieces = [(''space22'', ''you1.gif''), (''space13'', ''gray.gif'')]\<rparr>
       = Inr (Some ((2, 2), (1, 3)))
   \<and> capture_dirs {(7, 3)} {(8, 4)} (6, 2) [2] = None
   \<and> simple_dirs {(8, 3), (3, - 1)} (7, 2) [1] = None"
  using off_board_rejected [of "\<lparr>pieces = [(''space22'', ''you1.gif''), (''space33'', ''me1.gif''),
       (''space44'', ''gray.gif'')]\<rparr>" "(2, 2)" 4 4 6 2 2 "{(7, 3)}" "{(8, 4)}" "[]"]
    off_board_rejected [of "\<lparr>pieces = [(''space22'', ''you1.gif''), (''space13'', ''gray.gif'')]\<rparr>"
       "(2, 2)" 1 3 7 1 2 "{}" "{(8, 3), (3, - 1)}" "[]"]
  by (simp add: find_capture_move_def find_simple_move_def view_eval on_board_def)

subsection \<open>Simple-move search\<close>

text \<open>
  Claim C3 as stated fails: the snapshot below has a player piece at \<open>(7, 2)\<close> and
  classifies \<open>(8, 3)\<close>, its neighbour at offset \<open>(+1, +1)\<close>, as empty playable, yet
  \<open>find_simple_move\<close> returns \<open>None\<close>, because line 100 admits on-board destinations only.
\<close>

theorem find_simple_move_claim_counterexample:
  "player_pieces \<lparr>pieces = [(''space72'', ''you1.gif''), (''space83'', ''gray.gif'')]\<rparr>
     = Inr [(7, 2)]
   \<and> empty_playable_squares \<lparr>pieces = [(''space72'', ''you1.gif''), (''space83'', ''gray.gif'')]\<rparr>
     = Inr [(8, 3)]
   \<and> (7 + 1, 2 + 1) \<in> set [(8 :: int, 3 :: int)]
   \<and> find_simple_move \<lparr>pieces = [(''space72'', ''you1.gif''), (''space83'', ''gray.gif'')]\<rparr>
     = Inr None"
  by (simp add: find_simple_move_def view_eval on_board_def)

text \<open>
  Claim C3, amended. On a snapshot whose player and empty views evaluate,
  \<open>find_simple_move\<close> returns \<open>None\<close> if and only if no player piece \<open>(x, y)\<close> has a
  neighbour \<open>(x + dx, y + 1)\<close> with \<open>dx\<close> in \<open>{-1, 1}\<close> that lies within
  \<open>[0,7] \<times> [0,7]\<close> and is in \<open>empty_playable\<close>.
\<close>

theorem find_simple_move_None_iff:
  assumes "player_pieces s = Inr P" and "empty_playable_squares s = Inr E"
  shows "find_simple_move s = Inr None \<longleftrightarrow>
     \<not> (\<exists>(x, y)\<in>set P. \<exists>dx\<in>{- 1, 1}.
          0 \<le> x + dx \<and> x + dx \<le> 7 \<and> 0 \<le> y + 1 \<and> y + 1 \<le> 7
          \<and> (x + dx, y + 1) \<in> set E)"
proof -
  from assms(1) obtain r where
    r: "simple_loop (set E) (pieces s) = Inr r"
    and rn: "r = None \<longleftrightarrow> (\<forall>sq\<in>set P. simple_dirs (set E) sq [- 1, 1] = None)"
    unfolding player_pieces_def using simple_loop_total by blast
  have "find_simple_move s = Inr r"
    using assms(2) r by (simp add: find_simple_move_def)
  then show ?thesis using rn no_simple_iff [of P E] by simp
qed

theorem find_simple_move_None_iff_witness:
  "player_pieces \<lparr>pieces = [(''space22'', ''you1.gif''), (''space13'', ''gray.gif'')]\<rparr>
     = Inr [(2, 2)]
   \<and> empty_playable_squares \<lparr>pieces = [(''space22'', ''you1.gif''), (''space13'', ''gray.gif'')]\<rparr>
     = Inr [(1, 3)]
   \<and> find_simple_move \<lparr>pieces = [(''space22'', ''you1.gif''), (''space13'', ''gray.gif'')]\<rparr>
     \<noteq> Inr None"
  using find_simple_move_None_iff [of "\<lparr>pieces = [(''space22'', ''you1.gif''),
    (''space13'', ''gray.gif'')]\<rparr>" "[(2, 2)]" "[(1, 3)]"]
  by (simp add: view_eval)

subsection \<open>Capture preference\<close>

text \<open>
  Claim C2. Whenever \<open>find_capture_move\<close> returns a move, that move is the one chosen
  (the result of \<open>find_simple_move\<close> is not taken); on a snapshot whose views evaluate and
  in which some player piece has a valid jump, the chosen move is a jump returned by
  \<open>find_capture_move\<close>; and in the game loop the move returned by \<open>find_capture_move\<close> on
  the turn's snapshot is the one handed to \<open>perform_move\<close>.
\<close>

theorem capture_preferred:
  "(find_capture_move s = Inr (Some m) \<longrightarrow> choose_move s = Inr (Some m))
   \<and> (player_pieces s = Inr P \<and> opponent_pieces s = Inr Op \<and> empty_playable_squares s = Inr E
      \<and> (\<exists>(x, y)\<in>set P. \<exists>dx\<in>{- 2, 2}.
            0 \<le> x + dx \<and> x + dx \<le> 7 \<and> 0 \<le> y + 2 \<and> y + 2 \<le> 7
            \<and> (x + dx, y + 2) \<in> set E \<and> (x + dx div 2, y + 1) \<in> set Op)
      \<longrightarrow> (\<exists>x y dx. dx \<in> {- 2, 2} \<and> find_capture_move s = Inr (Some ((x, y), (x + dx, y + 2)))
            \<and> choose_move s = Inr (Some ((x, y), (x + dx, y + 2)))))
   \<and> (turn_reached page p = Some p1
      \<and> find_capture_move (from_page (board_images page p1)) = Inr (Some (from_sq, to_sq))
      \<longrightarrow> make_moves_loop page (Suc n) p tr =
            (case perform_move page from_sq to_sq p1 tr of
               (out, p2, tr2) \<Rightarrow>
                 (case out of
                    Raised e \<Rightarrow> (Raised e, p2, tr2)
                  | Returned \<Rightarrow> make_moves_loop page n (wait_for_timeout page 500 p2) tr2)))"
proof (intro conjI impI)
  assume "find_capture_move s = Inr (Some m)"
  then show "choose_move s = Inr (Some m)" by (rule choose_move_capture)
next
  assume a: "player_pieces s = Inr P \<and> opponent_pieces s = Inr Op
      \<and> empty_playable_squares s = Inr E
      \<and> (\<exists>(x, y)\<in>set P. \<exists>dx\<in>{- 2, 2}.
            0 \<le> x + dx \<and> x + dx \<le> 7 \<and> 0 \<le> y + 2 \<and> y + 2 \<le> 7
            \<and> (x + dx, y + 2) \<in> set E \<and> (x + dx div 2, y + 1) \<in> set Op)"
  then obtain r where r: "find_capture_move s = Inr r"
    and rn: "r = None \<longleftrightarrow> (\<forall>sq\<in>set P. capture_dirs (set Op) (set E) sq [- 2, 2] = None)"
    using find_capture_move_total by blast
  from a have "\<not> (\<forall>sq\<in>set P. capture_dirs (set Op) (set E) sq [- 2, 2] = None)"
    using no_capture_iff [of P Op E] by blast
  with rn obtain m where m: "r = Some m" by (cases r) auto
  from find_capture_move_Some [OF r [unfolded m]] obtain x y dx where
    "dx \<in> {- 2, 2}" "m = ((x, y), (x + dx, y + 2))" by blast
  with r m choose_move_capture [of s m]
  show "\<exists>x y dx. dx \<in> {- 2, 2} \<and> find_capture_move s = Inr (Some ((x, y), (x + dx, y + 2)))
            \<and> choose_move s = Inr (Some ((x, y), (x + dx, y + 2)))"
    by blast
next
  assume "turn_reached page p = Some p1
      \<and> find_capture_move (from_page (board_images page p1)) = Inr (Some (from_sq, to_sq))"
  then show "make_moves_loop page (Suc n) p tr =
            (case perform_move page from_sq to_sq p1 tr of
               (out, p2, tr2) \<Rightarrow>
                 (case out of
                    Raised e \<Rightarrow> (Raised e, p2, tr2)
                  | Returned \<Rightarrow> make_moves_loop page n (wait_for_timeout page 500 p2) tr2))"
    by (simp add: wait_for_turn_def choose_move_capture)
qed

theorem capture_preferred_witness:
  "find_capture_move \<lparr>pieces = [(''space22'', ''you1.gif''), (''space33'', ''me1.gif''),
       (''space44'', ''gray.gif''), (''space13'', ''gray.gif'')]\<rparr> = Inr (Some ((2, 2), (4, 4)))
   \<and> find_simple_move \<lparr>pieces = [(''space22'', ''you1.gif''), (''space33'', ''me1.gif''),
       (''space44'', ''gray.gif''), (''space13'', ''gray.gif'')]\<rparr> = Inr (Some ((2, 2), (1, 3)))
   \<and> choose_move \<lparr>pieces = [(''space22'', ''you1.gif''), (''space33'', ''me1.gif''),
       (''space44'', ''gray.gif''), (''space13'', ''gray.gif'')]\<rparr> = Inr (Some ((2, 2), (4, 4)))
   \<and> make_moves_loop
       \<lparr>turn_reached = Some,
        board_images = (\<lambda>_. [(Some ''space22'', Some ''you1.gif''),
          (Some ''space33'', Some ''me1.gif''), (Some ''space44'', Some ''gray.gif''),
          (Some ''space13'', Some ''gray.gif'')]),
        click = (\<lambda>_. Some), wait_for_timeout = (\<lambda>_ p. p)\<rparr> (Suc 0) () []
     = (Returned, (), [Click ''img[name=space22]'', Click ''img[name=space44]''])"
  using capture_preferred [where s = "\<lparr>pieces = [(''space22'', ''you1.gif''),
       (''space33'', ''me1.gif''), (''space44'', ''gray.gif''), (''space13'', ''gray.gif'')]\<rparr>"
     and m = "((2, 2), (4, 4))" and P = "[(2, 2)]" and Op = "[(3, 3)]"
     and E = "[(4, 4), (1, 3)]"
     and page = "\<lparr>turn_reached = Some,
        board_images = (\<lambda>_. [(Some ''space22'', Some ''you1.gif''),
          (Some ''space33'', Some ''me1.gif''), (Some ''space44'', Some ''gray.gif''),
          (Some ''space13'', Some ''gray.gif'')]),
        click = (\<lambda>_. Some), wait_for_timeout = (\<lambda>_ p. p)\<rparr>"
     and p = "()" and ?p1.0 = "()" and from_sq = "(2, 2)" and to_sq = "(4, 4)" and n = 0
     and tr = "[]"]
  by (simp add: find_capture_move_def find_simple_move_def view_eval on_board_def
      from_page_def filename_of_def perform_move_def str_int_def str_nat.simps)

subsection \<open>The game loop without a move\<close>

text \<open>
  Claim C7. In an iteration of the game loop whose wait for the turn returns and in which
  both \<open>find_capture_move\<close> and \<open>find_simple_move\<close> return \<open>None\<close> on the turn's
  snapshot, the loop returns at once, whatever the number of iterations left: the only
  event it adds to the trace is the report \<open>No moves available , ending game.\<close>, so no
  click is issued in that turn, and the page is left as the wait returned it.
\<close>

theorem no_moves_ends_game:
  assumes "turn_reached page p = Some p1"
    and "find_capture_move (from_page (board_images page p1)) = Inr None"
    and "find_simple_move (from_page (board_images page p1)) = Inr None"
  shows "make_moves_loop page (Suc n) p tr =
     (Returned, p1, tr @ [Print ''No moves available , ending game.''])"
  using assms by (simp add: wait_for_turn_def choose_move_def)

theorem no_moves_ends_game_witness:
  "find_capture_move (from_page [(Some ''space22'', Some ''you1.gif''),
       (Some ''space13'', Some ''me1.gif'')]) = Inr None
   \<and> find_simple_move (from_page [(Some ''space22'', Some ''you1.gif''),
       (Some ''space13'', Some ''me1.gif'')]) = Inr None
   \<and> make_moves_loop
       \<lparr>turn_reached = Some,
        board_images = (\<lambda>_. [(Some ''space22'', Some ''you1.gif''),
          (Some ''space13'', Some ''me1.gif'')]),
        click = (\<lambda>_. Some), wait_for_timeout = (\<lambda>_ p. p)\<rparr> (Suc 4) () []
     = (Returned, (), [Print ''No moves available , ending game.''])"
  using no_moves_ends_game [where page = "\<lparr>turn_reached = Some,
        board_images = (\<lambda>_. [(Some ''space22'', Some ''you1.gif''),
          (Some ''space13'', Some ''me1.gif'')]),
        click = (\<lambda>_. Some), wait_for_timeout = (\<lambda>_ p. p)\<rparr>"
     and p = "()" and ?p1.0 = "()" and n = 4 and tr = "[]"]
  by (simp add: find_capture_move_def find_simple_move_def view_eval on_board_def
      from_page_def filename_of_def)

subsection \<open>Purity of the searches\<close>

text \<open>
  Claim C5. A call of \<open>find_capture_move\<close> or of \<open>find_simple_move\<close> on a snapshot
  object changes no object that was in the store before the call (it only adds the sets
  it creates), so the snapshot and its dictionary are as they were; a second call of
  either search on the store left behind returns what a call on the store before
  returns; two calls on snapshots with the same dictionary content return the same
  result, whatever else the two stores hold; and that result is the one the functions
  on the snapshot's value give.
\<close>

theorem search_pure_deterministic:
  "(find_capture_move_store h state = (r, h') \<longrightarrow>
      (\<forall>a<length h. obj_at h' a = obj_at h a) \<and> items_of h' state = items_of h state
      \<and> fst (find_capture_move_store h' state) = r
      \<and> fst (find_simple_move_store h' state) = fst (find_simple_move_store h state))
   \<and> (find_simple_move_store h state = (r, h') \<longrightarrow>
      (\<forall>a<length h. obj_at h' a = obj_at h a) \<and> items_of h' state = items_of h state
      \<and> fst (find_simple_move_store h' state) = r
      \<and> fst (find_capture_move_store h' state) = fst (find_capture_move_store h state))
   \<and> (items_of h1 s1 = items_of h2 s2 \<longrightarrow>
      fst (find_capture_move_store h1 s1) = fst (find_capture_move_store h2 s2)
      \<and> fst (find_simple_move_store h1 s1) = fst (find_simple_move_store h2 s2))
   \<and> (items_of h state = Inr ps \<longrightarrow>
      fst (find_capture_move_store h state) = find_capture_move \<lparr>pieces = ps\<rparr>
      \<and> fst (find_simple_move_store h state) = find_simple_move \<lparr>pieces = ps\<rparr>)"
proof -
  have c: "find_capture_move_store h state = (r, h') \<longrightarrow>
      (\<forall>a<length h. obj_at h' a = obj_at h a) \<and> items_of h' state = items_of h state
      \<and> fst (find_capture_move_store h' state) = r
      \<and> fst (find_simple_move_store h' state) = fst (find_simple_move_store h state)"
  proof
    assume run: "find_capture_move_store h state = (r, h')"
    from find_capture_move_store_frame [of h state] run obtain ext where
      "h' = h @ ext" "\<forall>ob\<in>set ext. \<exists>S. ob = SetObj S" by auto
    from store_extended_by_sets [OF this, of state]
    have fr: "\<forall>a<length h. obj_at h' a = obj_at h a" and it: "items_of h' state = items_of h state"
      by blast+
    from run have "fst (find_capture_move_store h state) = r" by simp
    with it have "fst (find_capture_move_store h' state) = r"
      by (simp add: find_capture_move_store_result)
    moreover from it have
      "fst (find_simple_move_store h' state) = fst (find_simple_move_store h state)"
      by (simp add: find_simple_move_store_result)
    ultimately show "(\<forall>a<length h. obj_at h' a = obj_at h a)
      \<and> items_of h' state = items_of h state
      \<and> fst (find_capture_move_store h' state) = r
      \<and> fst (find_simple_move_store h' state) = fst (find_simple_move_store h state)"
      using fr it by blast
  qed
  have m: "find_simple_move_store h state = (r, h') \<longrightarrow>
      (\<forall>a<length h. obj_at h' a = obj_at h a) \<and> items_of h' state = items_of h state
      \<and> fst (find_simple_move_store h' state) = r
      \<and> fst (find_capture_move_store h' state) = fst (find_capture_move_store h state)"
  proof
    assume run: "find_simple_move_store h state = (r, h')"
    from find_simple_move_store_frame [of h state] run obtain ext where
      "h' = h @ ext" "\<forall>ob\<in>set ext. \<exists>S. ob = SetObj S" by auto
    from store_extended_by_sets [OF this, of state]
    have fr: "\<forall>a<length h. obj_at h' a = obj_at h a" and it: "items_of h' state = items_of h state"
      by blast+
    from run have "fst (find_simple_move_store h state) = r" by simp
    with it have "fst (find_simple_move_store h' state) = r"
      by (simp add: find_simple_move_store_result)
    moreover from it have
      "fst (find_capture_move_store h' state) = fst (find_capture_move_store h state)"
      by (simp add: find_capture_move_store_result)
    ultimately show "(\<forall>a<length h. obj_at h' a = obj_at h a)
      \<and> items_of h' state = items_of h state
      \<and> fst (find_simple_move_store h' state) = r
      \<and> fst (find_capture_move_store h' state) = fst (find_capture_move_store h state)"
      using fr it by blast
  qed
  have d: "items_of h1 s1 = items_of h2 s2 \<longrightarrow>
      fst (find_capture_move_store h1 s1) = fst (find_capture_move_store h2 s2)
      \<and> fst (find_simple_move_store h1 s1) = fst (find_simple_move_store h2 s2)"
    by (simp add: find_capture_move_store_result find_simple_move_store_result)
  have v: "items_of h state = Inr ps \<longrightarrow>
      fst (find_capture_move_store h state) = find_capture_move \<lparr>pieces = ps\<rparr>
      \<and> fst (find_simple_move_store h state) = find_simple_move \<lparr>pieces = ps\<rparr>"
    by (simp add: find_capture_move_store_result find_simple_move_store_result)
  show ?thesis
    by (rule conjI [OF c conjI [OF m conjI [OF d v]]])
qed

lemmas store_eval = find_capture_move_store_def find_simple_move_store_def
  opponent_pieces_at_def empty_playable_squares_at_def items_of_def obj_at_def alloc_def
  set_at_def coord_def int_of_char_def on_board_def

theorem search_pure_deterministic_witness:
  "find_capture_move_store
       [Dict [(''space22'', ''you1.gif''), (''space33'', ''me1.gif''), (''space44'', ''gray.gif'')],
        Board 0] 1
     = (Inr (Some ((2, 2), (4, 4))),
        [Dict [(''space22'', ''you1.gif''), (''space33'', ''me1.gif''), (''space44'', ''gray.gif'')],
         Board 0, SetObj {(3, 3)}, SetObj {(4, 4)}])
   \<and> fst (find_capture_move_store
       [Dict [(''space22'', ''you1.gif''), (''space33'', ''me1.gif''), (''space44'', ''gray.gif'')],
        Board 0, SetObj {(3, 3)}, SetObj {(4, 4)}] 1)
     = Inr (Some ((2, 2), (4, 4)))
   \<and> find_simple_move_store
       [Dict [(''space22'', ''you1.gif''), (''space33'', ''me1.gif''), (''space44'', ''gray.gif'')],
        Board 0] 1
     = (Inr None,
        [Dict [(''space22'', ''you1.gif''), (''space33'', ''me1.gif''), (''space44'', ''gray.gif'')],
         Board 0, SetObj {(4, 4)}])
   \<and> fst (find_simple_move_store
       [Dict [(''space22'', ''you1.gif''), (''space33'', ''me1.gif''), (''space44'', ''gray.gif'')],
        Board 0, SetObj {(4, 4)}] 1)
     = Inr None"
proof -
  let ?h = "[Dict [(''space22'', ''you1.gif''), (''space33'', ''me1.gif''),
       (''space44'', ''gray.gif'')], Board 0]"
  have c: "find_capture_move_store ?h 1
     = (Inr (Some ((2, 2), (4, 4))), ?h @ [SetObj {(3, 3)}, SetObj {(4, 4)}])"
    by (simp add: store_eval)
  have m: "find_simple_move_store ?h 1 = (Inr None, ?h @ [SetObj {(4, 4)}])"
    by (simp add: store_eval)
  from search_pure_deterministic [where h = ?h and state = 1
      and r = "Inr (Some ((2, 2), (4, 4)))" and h' = "?h @ [SetObj {(3, 3)}, SetObj {(4, 4)}]"] c
  have c2: "fst (find_capture_move_store (?h @ [SetObj {(3, 3)}, SetObj {(4, 4)}]) 1)
     = Inr (Some ((2, 2), (4, 4)))"
    by blast
  from search_pure_deterministic [where h = ?h and state = 1
      and r = "Inr None" and h' = "?h @ [SetObj {(4, 4)}]"] m
  have m2: "fst (find_simple_move_store (?h @ [SetObj {(4, 4)}]) 1) = Inr None"
    by blast
  from c c2 m m2 show ?thesis by simp
qed

subsection \<open>The three views\<close>

text \<open>
  Claim C4 as stated fails twice. The identifier \<open>space89\<close> with content \<open>you1.gif\<close> puts
  \<open>(8, 9)\<close> into \<open>player_pieces\<close>, outside \<open>[0,7] \<times> [0,7]\<close>: the views take any two
  digits. And the identifiers \<open>space23\<close> and \<open>spice23\<close>, two keys of one dictionary, put
  \<open>(2, 3)\<close> into both \<open>player_pieces\<close> and \<open>opponent_pieces\<close>: only characters 5 and 6
  of an identifier are read.
\<close>

theorem views_claim_counterexample:
  "player_pieces \<lparr>pieces = [(''space89'', ''you1.gif'')]\<rparr> = Inr [(8, 9)]
   \<and> \<not> (8 \<le> (7 :: int))
   \<and> distinct (map fst [(''space23'', ''you1.gif''), (''spice23'', ''me1.gif'')])
   \<and> player_pieces \<lparr>pieces = [(''space23'', ''you1.gif''), (''spice23'', ''me1.gif'')]\<rparr>
       = Inr [(2, 3)]
   \<and> opponent_pieces \<lparr>pieces = [(''space23'', ''you1.gif''), (''spice23'', ''me1.gif'')]\<rparr>
       = Inr [(2, 3)]
   \<and> set [(2 :: int, 3 :: int)] \<inter> set [(2, 3)] \<noteq> {}"
  by (simp add: view_eval)

text \<open>
  Claim C4, amended. For a snapshot (a dictionary, so with distinct keys) whose three
  views evaluate and in which no two identifiers carry the same coordinate, the views
  \<open>player_pieces\<close>, \<open>opponent_pieces\<close> and \<open>empty_playable\<close> are pairwise disjoint, and
  every coordinate in them lies within \<open>[0,9] \<times> [0,9]\<close>.
\<close>

theorem views_disjoint_in_digit_range:
  assumes "distinct (map fst (pieces s))"
    and "\<forall>n1\<in>fst ` set (pieces s). \<forall>n2\<in>fst ` set (pieces s). \<forall>sq.
        coord n1 = Inr sq \<and> coord n2 = Inr sq \<longrightarrow> n1 = n2"
    and "player_pieces s = Inr P" and "opponent_pieces s = Inr Op"
    and "empty_playable_squares s = Inr E"
  shows "set P \<inter> set Op = {} \<and> set P \<inter> set E = {} \<and> set Op \<inter> set E = {}
     \<and> (\<forall>(x, y)\<in>set P \<union> set Op \<union> set E. 0 \<le> x \<and> x \<le> 9 \<and> 0 \<le> y \<and> y \<le> 9)"
proof -
  note v = assms(3-5) [unfolded player_pieces_def opponent_pieces_def
      empty_playable_squares_def]
  have "set P \<inter> set Op = {}"
    using views_disjoint_aux [OF assms(1,2) v(1) v(2)] by simp
  moreover have "set P \<inter> set E = {}"
    using views_disjoint_aux [OF assms(1,2) v(1) v(3)] by simp
  moreover have "set Op \<inter> set E = {}"
    using views_disjoint_aux [OF assms(1,2) v(2) v(3)] by simp
  moreover have "\<forall>(x, y)\<in>set P \<union> set Op \<union> set E. 0 \<le> x \<and> x \<le> 9 \<and> 0 \<le> y \<and> y \<le> 9"
    using v by (auto dest: squares_with_range)
  ultimately show ?thesis by blast
qed

theorem views_disjoint_in_digit_range_witness:
  "distinct (map fst (pieces \<lparr>pieces = [(''space22'', ''you1.gif''), (''space93'', ''me1.gif''),
       (''space44'', ''gray.gif''), (''space'', ''black.gif'')]\<rparr>))
   \<and> player_pieces \<lparr>pieces = [(''space22'', ''you1.gif''), (''space93'', ''me1.gif''),
       (''space44'', ''gray.gif''), (''space'', ''black.gif'')]\<rparr> = Inr [(2, 2)]
   \<and> opponent_pieces \<lparr>pieces = [(''space22'', ''you1.gif''), (''space93'', ''me1.gif''),
       (''space44'', ''gray.gif''), (''space'', ''black.gif'')]\<rparr> = Inr [(9, 3)]
   \<and> empty_playable_squares \<lparr>pieces = [(''space22'', ''you1.gif''), (''space93'', ''me1.gif''),
       (''space44'', ''gray.gif''), (''space'', ''black.gif'')]\<rparr> = Inr [(4, 4)]
   \<and> set [(2 :: int, 2 :: int)] \<inter> set [(9, 3)] = {}
   \<and> set [(2 :: int, 2 :: int)] \<inter> set [(4, 4)] = {}
   \<and> set [(9 :: int, 3 :: int)] \<inter> set [(4, 4)] = {}"
  using views_disjoint_in_digit_range [of "\<lparr>pieces = [(''space22'', ''you1.gif''),
       (''space93'', ''me1.gif''), (''space44'', ''gray.gif''), (''space'', ''black.gif'')]\<rparr>"
       "[(2, 2)]" "[(9, 3)]" "[(4, 4)]"]
  by (simp add: view_eval)

subsection \<open>Construction of the snapshot\<close>

text \<open>
  Claim C8. \<open>from_page\<close> never fails and skips the pairs whose identifier is absent or
  empty: the snapshot is the one built from the other pairs alone, and each of its
  entries comes from a pair with a non-empty identifier, its content being the file name
  of that pair's \<open>src\<close> (the text after the last slash, empty for an absent \<open>src\<close>). A
  coordinate is in \<open>player_pieces\<close>, \<open>opponent_pieces\<close> or \<open>empty_playable\<close> only if it
  is the coordinate of an entry whose content is exactly \<open>you1.gif\<close>, \<open>me1.gif\<close> or
  \<open>gray.gif\<close> respectively; and entries with any other content have no effect on the
  three views, exceptions included: the views of the snapshot without them are the same.
\<close>

theorem from_page_skips_and_ignores:
  "from_page [(name, src) \<leftarrow> images. name \<noteq> None \<and> name \<noteq> Some []] = from_page images
   \<and> (\<forall>n c. (n, c) \<in> set (pieces (from_page images)) \<longrightarrow>
         n \<noteq> [] \<and> (\<exists>src. (Some n, src) \<in> set images \<and> c = filename_of src))
   \<and> (player_pieces s = Inr P \<longrightarrow>
         set P = {sq. \<exists>n. (n, ''you1.gif'') \<in> set (pieces s) \<and> coord n = Inr sq})
   \<and> (opponent_pieces s = Inr Op \<longrightarrow>
         set Op = {sq. \<exists>n. (n, ''me1.gif'') \<in> set (pieces s) \<and> coord n = Inr sq})
   \<and> (empty_playable_squares s = Inr E \<longrightarrow>
         set E = {sq. \<exists>n. (n, ''gray.gif'') \<in> set (pieces s) \<and> coord n = Inr sq})
   \<and> player_pieces \<lparr>pieces = [(n, c) \<leftarrow> pieces s.
         c \<in> {''you1.gif'', ''me1.gif'', ''gray.gif''}]\<rparr> = player_pieces s
   \<and> opponent_pieces \<lparr>pieces = [(n, c) \<leftarrow> pieces s.
         c \<in> {''you1.gif'', ''me1.gif'', ''gray.gif''}]\<rparr> = opponent_pieces s
   \<and> empty_playable_squares \<lparr>pieces = [(n, c) \<leftarrow> pieces s.
         c \<in> {''you1.gif'', ''me1.gif'', ''gray.gif''}]\<rparr> = empty_playable_squares s"
proof -
  have skip: "from_page [(name, src) \<leftarrow> images. name \<noteq> None \<and> name \<noteq> Some []]
      = from_page images"
    unfolding from_page_def using from_page_loop_filter [of "[]" images] by simp
  have kept: "\<forall>n c. (n, c) \<in> set (pieces (from_page images)) \<longrightarrow>
         n \<noteq> [] \<and> (\<exists>src. (Some n, src) \<in> set images \<and> c = filename_of src)"
    by (auto simp: from_page_def dest!: set_from_page_loop)
  have pl: "player_pieces s = Inr P \<longrightarrow>
         set P = {sq. \<exists>n. (n, ''you1.gif'') \<in> set (pieces s) \<and> coord n = Inr sq}"
    unfolding player_pieces_def by (blast dest: squares_with_set)
  have op: "opponent_pieces s = Inr Op \<longrightarrow>
         set Op = {sq. \<exists>n. (n, ''me1.gif'') \<in> set (pieces s) \<and> coord n = Inr sq}"
    unfolding opponent_pieces_def by (blast dest: squares_with_set)
  have em: "empty_playable_squares s = Inr E \<longrightarrow>
         set E = {sq. \<exists>n. (n, ''gray.gif'') \<in> set (pieces s) \<and> coord n = Inr sq}"
    unfolding empty_playable_squares_def by (blast dest: squares_with_set)
  have f1: "player_pieces \<lparr>pieces = [(n, c) \<leftarrow> pieces s.
         c \<in> {''you1.gif'', ''me1.gif'', ''gray.gif''}]\<rparr> = player_pieces s"
    unfolding player_pieces_def using squares_with_filter [of "''you1.gif''" "pieces s"] by simp
  have f2: "opponent_pieces \<lparr>pieces = [(n, c) \<leftarrow> pieces s.
         c \<in> {''you1.gif'', ''me1.gif'', ''gray.gif''}]\<rparr> = opponent_pieces s"
    unfolding opponent_pieces_def using squares_with_filter [of "''me1.gif''" "pieces s"] by simp
  have f3: "empty_playable_squares \<lparr>pieces = [(n, c) \<leftarrow> pieces s.
         c \<in> {''you1.gif'', ''me1.gif'', ''gray.gif''}]\<rparr> = empty_playable_squares s"
    unfolding empty_playable_squares_def
    using squares_with_filter [of "''gray.gif''" "pieces s"] by simp
  show ?thesis
    by (rule conjI [OF skip conjI [OF kept conjI [OF pl conjI [OF op conjI [OF em
        conjI [OF f1 conjI [OF f2 f3]]]]]]])
qed

theorem from_page_skips_and_ignores_witness:
  "from_page [(None, Some ''you1.gif''), (Some [], Some ''me1.gif''),
        (Some ''space22'', Some ''img/you1.gif''), (Some ''x'', Some ''black.gif''),
        (Some ''space35'', None)]
     = \<lparr>pieces = [(''space22'', ''you1.gif''), (''x'', ''black.gif''), (''space35'', [])]\<rparr>
   \<and> player_pieces \<lparr>pieces = [(''space22'', ''you1.gif''), (''x'', ''black.gif''),
        (''space35'', [])]\<rparr> = Inr [(2, 2)]
   \<and> opponent_pieces \<lparr>pieces = [(''space22'', ''you1.gif''), (''x'', ''black.gif''),
        (''space35'', [])]\<rparr> = Inr []
   \<and> empty_playable_squares \<lparr>pieces = [(''space22'', ''you1.gif''), (''x'', ''black.gif''),
        (''space35'', [])]\<rparr> = Inr []
   \<and> player_pieces \<lparr>pieces = [(''space22'', ''you1.gif'')]\<rparr> = Inr [(2, 2)]"
  using from_page_skips_and_ignores [of "[(None, Some ''you1.gif''), (Some [], Some ''me1.gif''),
        (Some ''space22'', Some ''img/you1.gif''), (Some ''x'', Some ''black.gif''),
        (Some ''space35'', None)]"
      "\<lparr>pieces = [(''space22'', ''you1.gif''), (''x'', ''black.gif''), (''space35'', [])]\<rparr>"
      "[(2, 2)]" "[]" "[]"]
  by (simp add: from_page_def filename_of_def view_eval)

text \<open>
  Claim C10. When the page holds two pairs with the same non-empty identifier, the
  content of the earlier one has no effect: the snapshot is the same for any other
  earlier content, the identifier has a single entry, and if no later pair carries the
  identifier that entry's content is the file name of the later pair's \<open>src\<close>.
\<close>

theorem last_occurrence_wins:
  assumes "n \<noteq> []"
  shows "from_page (xs @ (Some n, c1) # ys @ (Some n, c2) # zs)
       = from_page (xs @ (Some n, c1') # ys @ (Some n, c2) # zs)
     \<and> distinct (map fst (pieces (from_page (xs @ (Some n, c1) # ys @ (Some n, c2) # zs))))
     \<and> (Some n \<notin> fst ` set zs \<longrightarrow>
          (\<forall>c. (n, c) \<in> set (pieces (from_page (xs @ (Some n, c1) # ys @ (Some n, c2) # zs)))
             \<longleftrightarrow> c = filename_of c2))"
proof -
  let ?P = "from_page_loop [] xs"
  let ?Q = "setitem n (filename_of c1) ?P"
  let ?f2 = "filename_of c2"
  have loop: "from_page_loop [] (xs @ (Some n, c) # ys @ (Some n, c2) # zs)
       = from_page_loop (setitem n ?f2 (from_page_loop (setitem n (filename_of c) ?P) ys)) zs"
    for c
    using assms by (simp add: from_page_loop_append)
  have inQ: "n \<in> fst ` set ?Q" by (simp add: keys_setitem)
  have "setitem n ?f2 (from_page_loop (setitem n (filename_of c1') ?P) ys)
       = setitem n ?f2 (from_page_loop (setitem n (filename_of c1') ?Q) ys)"
    by (simp add: setitem_twice)
  also have "\<dots> = setitem n ?f2 (from_page_loop ?Q ys)"
    by (rule from_page_loop_overwritten [OF inQ])
  finally have eq: "from_page (xs @ (Some n, c1) # ys @ (Some n, c2) # zs)
       = from_page (xs @ (Some n, c1') # ys @ (Some n, c2) # zs)"
    by (simp add: from_page_def loop)
  have dist: "distinct (map fst (pieces (from_page (xs @ (Some n, c1) # ys @ (Some n, c2) # zs))))"
    by (simp add: from_page_def distinct_from_page_loop)
  have last: "\<forall>c. (n, c) \<in> set (pieces (from_page (xs @ (Some n, c1) # ys @ (Some n, c2) # zs)))
             \<longleftrightarrow> c = ?f2" if z: "Some n \<notin> fst ` set zs"
  proof -
    have "map_of (pieces (from_page (xs @ (Some n, c1) # ys @ (Some n, c2) # zs))) n = Some ?f2"
      using z by (simp add: from_page_def loop map_of_from_page_loop_other map_of_setitem)
    with dist show ?thesis by (auto dest: eq_key_imp_eq_value)
  qed
  from eq dist last show ?thesis by blast
qed

theorem last_occurrence_wins_witness:
  "''space22'' \<noteq> []
   \<and> from_page [(Some ''space11'', Some ''gray.gif''), (Some ''space22'', Some ''me1.gif''),
        (Some ''space33'', Some ''gray.gif''), (Some ''space22'', Some ''you1.gif'')]
     = from_page [(Some ''space11'', Some ''gray.gif''), (Some ''space22'', None),
        (Some ''space33'', Some ''gray.gif''), (Some ''space22'', Some ''you1.gif'')]
   \<and> pieces (from_page [(Some ''space11'', Some ''gray.gif''), (Some ''space22'', Some ''me1.gif''),
        (Some ''space33'', Some ''gray.gif''), (Some ''space22'', Some ''you1.gif'')])
     = [(''space11'', ''gray.gif''), (''space22'', ''you1.gif''), (''space33'', ''gray.gif'')]"
  using last_occurrence_wins [of "''space22''" "[(Some ''space11'', Some ''gray.gif'')]"
      "Some ''me1.gif''" "[(Some ''space33'', Some ''gray.gif'')]" "Some ''you1.gif''" "[]" None]
  by (simp add: from_page_def filename_of_def)

end
